theory Spec2Isabelle
  imports Complex_Main "HOL-Library.Word" "HOL-Library.Sublist"
begin

section \<open>JavaScript numbers\<close>

text \<open>
  The detector of \<^verbatim>\<open>src/lib/voice-activity-detector.ts\<close> computes with JavaScript
  numbers. They are modelled as real numbers extended by the three special values that
  its divisions can produce: \<open>0/0\<close> is \<open>NaN\<close>, \<open>x/0\<close> is an infinity. Rounding is
  not modelled (every finite result is the exact real), and the two zeros of IEEE 754
  are identified. Each operation below is the JavaScript operator of the same name on
  these values.
\<close>

datatype jsnum = Num real | PInf | NInf | NaN

fun jadd :: "jsnum \<Rightarrow> jsnum \<Rightarrow> jsnum" where
  "jadd NaN _ = NaN"
| "jadd _ NaN = NaN"
| "jadd (Num a) (Num b) = Num (a + b)"
| "jadd PInf NInf = NaN"
| "jadd NInf PInf = NaN"
| "jadd PInf _ = PInf"
| "jadd _ PInf = PInf"
| "jadd NInf _ = NInf"
| "jadd _ NInf = NInf"

fun jscale :: "jsnum \<Rightarrow> real \<Rightarrow> jsnum" where
  "jscale NaN _ = NaN"
| "jscale (Num a) b = Num (a * b)"
| "jscale PInf b = (if b = 0 then NaN else if 0 < b then PInf else NInf)"
| "jscale NInf b = (if b = 0 then NaN else if 0 < b then NInf else PInf)"

fun jmul :: "jsnum \<Rightarrow> jsnum \<Rightarrow> jsnum" where
  "jmul NaN _ = NaN"
| "jmul _ NaN = NaN"
| "jmul a (Num b) = jscale a b"
| "jmul (Num a) b = jscale b a"
| "jmul PInf PInf = PInf"
| "jmul NInf NInf = PInf"
| "jmul PInf NInf = NInf"
| "jmul NInf PInf = NInf"

fun jdiv :: "jsnum \<Rightarrow> jsnum \<Rightarrow> jsnum" where
  "jdiv NaN _ = NaN"
| "jdiv _ NaN = NaN"
| "jdiv (Num a) (Num b) =
     (if b \<noteq> 0 then Num (a / b)
      else if a = 0 then NaN else if 0 < a then PInf else NInf)"
| "jdiv (Num a) _ = Num 0"
| "jdiv PInf (Num b) = (if 0 \<le> b then PInf else NInf)"
| "jdiv NInf (Num b) = (if 0 \<le> b then NInf else PInf)"
| "jdiv _ _ = NaN"

fun jlt :: "jsnum \<Rightarrow> jsnum \<Rightarrow> bool" where
  "jlt NaN _ = False"
| "jlt _ NaN = False"
| "jlt (Num a) (Num b) = (a < b)"
| "jlt _ NInf = False"
| "jlt NInf _ = True"
| "jlt PInf _ = False"
| "jlt _ PInf = True"

definition jgt :: "jsnum \<Rightarrow> jsnum \<Rightarrow> bool" where
  "jgt a b = jlt b a"

text \<open>\<^verbatim>\<open>Math.min\<close> and \<^verbatim>\<open>Math.max\<close>: \<open>NaN\<close> as soon as one argument is.\<close>

definition jmin :: "jsnum \<Rightarrow> jsnum \<Rightarrow> jsnum" where
  "jmin a b = (if a = NaN \<or> b = NaN then NaN else if jlt b a then b else a)"

definition jmax :: "jsnum \<Rightarrow> jsnum \<Rightarrow> jsnum" where
  "jmax a b = (if a = NaN \<or> b = NaN then NaN else if jlt a b then b else a)"

fun jsqrt :: "jsnum \<Rightarrow> jsnum" where
  "jsqrt (Num a) = (if a < 0 then NaN else Num (sqrt a))"
| "jsqrt PInf = PInf"
| "jsqrt _ = NaN"

fun jfloor :: "jsnum \<Rightarrow> jsnum" where
  "jfloor (Num a) = Num (of_int \<lfloor>a\<rfloor>)"
| "jfloor x = x"

section \<open>Configuration and events\<close>

record config =
  energyThreshold :: real
  zeroCrossingThreshold :: real
  minSpeechDuration :: real
  minSilenceDuration :: real
  fftSize :: real
  voiceFrequencyMin :: real
  voiceFrequencyMax :: real

text \<open>
  \<^verbatim>\<open>Partial<VoiceActivityConfig>\<close>: every key may be absent (\<open>None\<close>).
\<close>

record partial_config =
  p_energyThreshold :: "real option"
  p_zeroCrossingThreshold :: "real option"
  p_minSpeechDuration :: "real option"
  p_minSilenceDuration :: "real option"
  p_fftSize :: "real option"
  p_voiceFrequencyMin :: "real option"
  p_voiceFrequencyMax :: "real option"

definition no_overrides :: partial_config where
  "no_overrides = \<lparr>p_energyThreshold = None, p_zeroCrossingThreshold = None,
     p_minSpeechDuration = None, p_minSilenceDuration = None, p_fftSize = None,
     p_voiceFrequencyMin = None, p_voiceFrequencyMax = None\<rparr>"

definition DEFAULT_CONFIG :: config where
  "DEFAULT_CONFIG = \<lparr>energyThreshold = 0.02, zeroCrossingThreshold = 0.3,
     minSpeechDuration = 300, minSilenceDuration = 800, fftSize = 2048,
     voiceFrequencyMin = 85, voiceFrequencyMax = 3400\<rparr>"

text \<open>The object spread \<^verbatim>\<open>{ ...c, ...p }\<close>: the keys of \<open>p\<close> win.\<close>

definition spread :: "config \<Rightarrow> partial_config \<Rightarrow> config" where
  "spread c p = \<lparr>
     energyThreshold = (case p_energyThreshold p of Some v \<Rightarrow> v | None \<Rightarrow> energyThreshold c),
     zeroCrossingThreshold =
       (case p_zeroCrossingThreshold p of Some v \<Rightarrow> v | None \<Rightarrow> zeroCrossingThreshold c),
     minSpeechDuration =
       (case p_minSpeechDuration p of Some v \<Rightarrow> v | None \<Rightarrow> minSpeechDuration c),
     minSilenceDuration =
       (case p_minSilenceDuration p of Some v \<Rightarrow> v | None \<Rightarrow> minSilenceDuration c),
     fftSize = (case p_fftSize p of Some v \<Rightarrow> v | None \<Rightarrow> fftSize c),
     voiceFrequencyMin =
       (case p_voiceFrequencyMin p of Some v \<Rightarrow> v | None \<Rightarrow> voiceFrequencyMin c),
     voiceFrequencyMax =
       (case p_voiceFrequencyMax p of Some v \<Rightarrow> v | None \<Rightarrow> voiceFrequencyMax c)\<rparr>"

datatype event_type = SpeechStart | SpeechEnd | SpeechActive | Noise

text \<open>\<^verbatim>\<open>VoiceActivityEvent\<close>; the optional \<^verbatim>\<open>duration\<close> key is an option.\<close>

record event =
  ev_type :: event_type
  timestamp :: int
  energy :: jsnum
  confidence :: jsnum
  duration :: "real option"

section \<open>The detector\<close>

type_synonym byte = "8 word"

text \<open>
  The fields of \<^verbatim>\<open>class VoiceActivityDetector\<close>. The three Web Audio objects are
  modelled by whether the field is non-null, the callback by whether it is defined;
  \<^verbatim>\<open>animationFrame\<close> holds the handle that \<^verbatim>\<open>requestAnimationFrame\<close> returned.
  Timestamps are the integers of \<^verbatim>\<open>Date.now()\<close>.
\<close>

record detector =
  audioContext :: bool
  analyser :: bool
  sourceNode :: bool
  animationFrame :: "nat option"
  config :: config
  isSpeaking :: bool
  speechStartTime :: int
  lastSpeechTime :: int
  silenceStartTime :: int
  energyHistory :: "jsnum list"
  onActivityCallback :: bool

definition energyHistorySize :: nat where
  "energyHistorySize = 10"

text \<open>\<^verbatim>\<open>constructor(config = {})\<close>\<close>

definition construct :: "partial_config \<Rightarrow> detector" where
  "construct p = \<lparr>audioContext = False, analyser = False, sourceNode = False,
     animationFrame = None, config = spread DEFAULT_CONFIG p, isSpeaking = False,
     speechStartTime = 0, lastSpeechTime = 0, silenceStartTime = 0,
     energyHistory = [], onActivityCallback = False\<rparr>"

subsection \<open>Feature extraction\<close>

text \<open>
  \<^verbatim>\<open>calculateEnergy\<close>: the loop adds the squares of the normalized samples, which are
  finite; the only division is by \<^verbatim>\<open>data.length\<close>.
\<close>

definition calculateEnergy :: "byte list \<Rightarrow> jsnum" where
  "calculateEnergy data =
     (let sum = foldl (\<lambda>sum d. let normalized = (real (unat d) - 128) / 128
                                in sum + normalized * normalized) 0 data
      in jsqrt (jdiv (Num sum) (Num (real (length data)))))"

text \<open>\<^verbatim>\<open>calculateZeroCrossingRate\<close>: the loop starts at index 1 and looks back one sample.\<close>

fun count_crossings :: "byte list \<Rightarrow> nat" where
  "count_crossings (p # d # ds) =
     (if (128 \<le> unat d \<and> unat p < 128) \<or> (unat d < 128 \<and> 128 \<le> unat p) then 1 else 0)
       + count_crossings (d # ds)"
| "count_crossings _ = 0"

definition calculateZeroCrossingRate :: "byte list \<Rightarrow> jsnum" where
  "calculateZeroCrossingRate data =
     jdiv (Num (real (count_crossings data))) (Num (real (length data)))"

text \<open>
  \<^verbatim>\<open>calculateVoiceEnergy\<close>. The audio context is created by \<^verbatim>\<open>init\<close> with
  \<^verbatim>\<open>{ sampleRate: 16000 }\<close>, and a context that exists has the rate it was asked for.
  Reading a typed array at a negative index gives \<^verbatim>\<open>undefined\<close>, and
  \<^verbatim>\<open>undefined / 255\<close> is \<open>NaN\<close>.
\<close>

definition sampleRate :: real where
  "sampleRate = 16000"

definition bin_value :: "byte list \<Rightarrow> int \<Rightarrow> jsnum" where
  "bin_value frequencyData i =
     (if 0 \<le> i \<and> i < int (length frequencyData)
      then Num (real (unat (frequencyData ! nat i)) / 255) else NaN)"

text \<open>
  The indices the loop \<^verbatim>\<open>for (i = minBin; i < maxBin && i < frequencyData.length; i++)\<close>
  visits. Both bounds are floors of finite quotients (lemma \<open>bins_finite\<close> below), or
  \<open>maxBin\<close> is compared as an infinity; the last case is never reached.
\<close>

fun visited_bins :: "jsnum \<Rightarrow> jsnum \<Rightarrow> nat \<Rightarrow> int list" where
  "visited_bins (Num lo) (Num hi) len = [\<lfloor>lo\<rfloor> .. min \<lfloor>hi\<rfloor> (int len) - 1]"
| "visited_bins (Num lo) PInf len = [\<lfloor>lo\<rfloor> .. int len - 1]"
| "visited_bins _ _ len = []"

definition calculateVoiceEnergy :: "detector \<Rightarrow> byte list \<Rightarrow> jsnum" where
  "calculateVoiceEnergy s frequencyData =
     (if \<not> audioContext s then Num 0
      else
        let binSize = jdiv (Num sampleRate) (Num (fftSize (config s)));
            minBin = jfloor (jdiv (Num (voiceFrequencyMin (config s))) binSize);
            maxBin = jfloor (jdiv (Num (voiceFrequencyMax (config s))) binSize);
            bins = visited_bins minBin maxBin (length frequencyData);
            sum = foldl (\<lambda>sum i. jadd sum (bin_value frequencyData i)) (Num 0) bins;
            count = length bins
        in if 0 < count then jdiv sum (Num (real count)) else Num 0)"

subsection \<open>One iteration of the detection loop\<close>

text \<open>
  What one call of \<^verbatim>\<open>detect\<close> reads from its environment: the clock, the two arrays
  the analyser fills, and the handle the next \<^verbatim>\<open>requestAnimationFrame\<close> returns.
\<close>

record frame =
  now :: int
  frequencyData :: "byte list"
  timeDomainData :: "byte list"
  handle :: nat

record metrics =
  history :: "jsnum list"
  adaptiveThreshold :: jsnum
  frameEnergy :: jsnum
  frameConfidence :: jsnum
  isVoicePresent :: bool

text \<open>Lines 115 to 143: the metrics, the energy history, the confidence.\<close>

definition frame_metrics :: "detector \<Rightarrow> frame \<Rightarrow> metrics" where
  "frame_metrics s f =
     (let energy = calculateEnergy (timeDomainData f);
          voiceEnergy = calculateVoiceEnergy s (frequencyData f);
          zeroCrossingRate = calculateZeroCrossingRate (timeDomainData f);
          pushed = energyHistory s @ [energy];
          hist = (if energyHistorySize < length pushed then tl pushed else pushed);
          avgEnergy = jdiv (foldl jadd (Num 0) hist) (Num (real (length hist)));
          threshold = jmax (Num (energyThreshold (config s))) (jmul avgEnergy (Num 1.5));
          energyScore = jmin (Num 1) (jdiv energy threshold);
          voiceScore = jmin (Num 1) (jdiv voiceEnergy threshold);
          zcrScore = (if jlt zeroCrossingRate (Num (zeroCrossingThreshold (config s)))
                      then Num 1 else Num 0);
          conf = jadd (jadd (jmul energyScore (Num 0.4)) (jmul voiceScore (Num 0.5)))
                   (jmul zcrScore (Num 0.1))
      in \<lparr>history = hist, adaptiveThreshold = threshold, frameEnergy = energy,
          frameConfidence = conf, isVoicePresent = jgt conf (Num 0.6)\<rparr>)"

text \<open>\<^verbatim>\<open>emitEvent\<close>: the events handed to the callback, none when there is no callback.\<close>

definition emitEvent :: "detector \<Rightarrow> event \<Rightarrow> event list" where
  "emitEvent s e = (if onActivityCallback s then [e] else [])"

text \<open>Lines 146 to 220: the state machine, branch by branch.\<close>

definition speech_machine ::
  "detector \<Rightarrow> int \<Rightarrow> jsnum \<Rightarrow> jsnum \<Rightarrow> bool \<Rightarrow> detector \<times> event list" where
  "speech_machine s t e c voice =
     (if voice then
        (let s1 = s\<lparr>lastSpeechTime := t\<rparr> in
         if \<not> isSpeaking s1 then
           (if speechStartTime s1 = 0 then (s1\<lparr>speechStartTime := t\<rparr>, [])
            else if minSpeechDuration (config s1) \<le> real_of_int (t - speechStartTime s1) then
              (s1\<lparr>isSpeaking := True, silenceStartTime := 0\<rparr>,
               emitEvent s1 \<lparr>ev_type = SpeechStart, timestamp = t, energy = e,
                             confidence = c, duration = None\<rparr>)
            else (s1, []))
         else
           (s1, emitEvent s1 \<lparr>ev_type = SpeechActive, timestamp = t, energy = e,
                              confidence = c, duration = None\<rparr>))
      else if isSpeaking s then
        (if silenceStartTime s = 0 then (s\<lparr>silenceStartTime := t\<rparr>, [])
         else if minSilenceDuration (config s) \<le> real_of_int (t - silenceStartTime s) then
           (let d = real_of_int (t - lastSpeechTime s) + minSilenceDuration (config s) in
            (s\<lparr>isSpeaking := False, speechStartTime := 0, silenceStartTime := 0\<rparr>,
             emitEvent s \<lparr>ev_type = SpeechEnd, timestamp = t, energy = e,
                          confidence = c, duration = Some d\<rparr>))
         else (s, []))
      else
        (let s1 = (if speechStartTime s \<noteq> 0
                     \<and> real_of_int (t - speechStartTime s) < minSpeechDuration (config s)
                   then s\<lparr>speechStartTime := 0\<rparr> else s)
         in (s1, if jgt e (jmul (Num (energyThreshold (config s))) (Num 0.5))
                 then emitEvent s \<lparr>ev_type = Noise, timestamp = t, energy = e,
                                   confidence = c, duration = None\<rparr>
                 else [])))"

text \<open>\<^verbatim>\<open>detect\<close>: nothing happens without an analyser, not even the rescheduling.\<close>

definition detect :: "detector \<Rightarrow> frame \<Rightarrow> detector \<times> event list" where
  "detect s f =
     (if \<not> analyser s then (s, [])
      else
        let m = frame_metrics s f;
            (s', evs) = speech_machine (s\<lparr>energyHistory := history m\<rparr>) (now f)
                          (frameEnergy m) (frameConfidence m) (isVoicePresent m)
        in (s'\<lparr>animationFrame := Some (handle f)\<rparr>, evs))"

subsection \<open>Lifecycle\<close>

text \<open>
  \<^verbatim>\<open>init\<close> has no \<^verbatim>\<open>await\<close>: it runs to its end or to its first exception, and
  the assignments made before an exception stay. The platform decides whether the audio
  context and the stream source can be created; the analyser refuses an \<^verbatim>\<open>fftSize\<close>
  that is not a power of two from 32 to 32768. \<^verbatim>\<open>startDetection\<close> calls \<^verbatim>\<open>detect\<close>
  once at once.
\<close>

datatype platform = NoAudioContext | NoStreamSource | Available

datatype init_error = NotSupportedError | IndexSizeError | InvalidStateError

definition valid_fftSize :: "real \<Rightarrow> bool" where
  "valid_fftSize x = (x \<in> set (map (\<lambda>k. 2 ^ k) [5 ..< 16]))"

definition init ::
  "detector \<Rightarrow> bool \<Rightarrow> platform \<Rightarrow> frame \<Rightarrow> (detector \<times> event list) \<times> init_error option" where
  "init s onActivity env f =
     (let s1 = s\<lparr>onActivityCallback := onActivity\<rparr> in
      if env = NoAudioContext then ((s1, []), Some NotSupportedError)
      else
        let s2 = s1\<lparr>audioContext := True, analyser := True\<rparr> in
        if \<not> valid_fftSize (fftSize (config s2)) then ((s2, []), Some IndexSizeError)
        else if env = NoStreamSource then ((s2, []), Some InvalidStateError)
        else (detect (s2\<lparr>sourceNode := True\<rparr>) f, None))"

record state_report =
  r_isSpeaking :: bool
  r_lastSpeechTime :: int
  timeSinceLastSpeech :: int

text \<open>\<^verbatim>\<open>getState\<close>, called when the clock shows \<open>t\<close>.\<close>

definition getState :: "detector \<Rightarrow> int \<Rightarrow> state_report" where
  "getState s t = \<lparr>r_isSpeaking = isSpeaking s, r_lastSpeechTime = lastSpeechTime s,
     timeSinceLastSpeech = t - lastSpeechTime s\<rparr>"

definition updateConfig :: "detector \<Rightarrow> partial_config \<Rightarrow> detector" where
  "updateConfig s p = s\<lparr>config := spread (config s) p\<rparr>"

text \<open>
  \<^verbatim>\<open>stop\<close>, with the calls it makes on the resources it finds. Each call is guarded by
  the truthiness of its field, so a handle 0 is neither cancelled nor cleared.
\<close>

datatype effect = CancelAnimationFrame nat | Disconnect | CloseContext

definition stop :: "detector \<Rightarrow> detector \<times> effect list" where
  "stop s =
     (let (s1, e1) = (case animationFrame s of
                        Some h \<Rightarrow> if h \<noteq> 0 then (s\<lparr>animationFrame := None\<rparr>, [CancelAnimationFrame h])
                                  else (s, [])
                      | None \<Rightarrow> (s, []));
          (s2, e2) = (if sourceNode s1 then (s1\<lparr>sourceNode := False\<rparr>, [Disconnect])
                      else (s1, []));
          (s3, e3) = (if audioContext s2 then (s2\<lparr>audioContext := False\<rparr>, [CloseContext])
                      else (s2, []))
      in (s3\<lparr>analyser := False, isSpeaking := False, speechStartTime := 0,
             lastSpeechTime := 0, silenceStartTime := 0\<rparr>, e1 @ e2 @ e3))"

subsection \<open>Sequences of calls\<close>

datatype call = Init bool platform frame | Poll frame | UpdateConfig partial_config | Stop

fun exec_call :: "detector \<Rightarrow> call \<Rightarrow> detector \<times> event list" where
  "exec_call s (Init cb env f) = fst (init s cb env f)"
| "exec_call s (Poll f) = detect s f"
| "exec_call s (UpdateConfig p) = (updateConfig s p, [])"
| "exec_call s Stop = (fst (stop s), [])"

fun exec :: "detector \<Rightarrow> call list \<Rightarrow> detector \<times> event list" where
  "exec s [] = (s, [])"
| "exec s (c # cs) =
     (let (s1, e1) = exec_call s c; (s2, e2) = exec s1 cs in (s2, e1 @ e2))"

text \<open>A session: the frames polled one after the other, with nothing in between.\<close>

fun run :: "detector \<Rightarrow> frame list \<Rightarrow> detector \<times> event list" where
  "run s [] = (s, [])"
| "run s (f # fs) =
     (let (s1, e1) = detect s f; (s2, e2) = run s1 fs in (s2, e1 @ e2))"

text \<open>
  The state in which frame \<open>i\<close> of a session is polled, whether the detector finds voice
  in that frame, and what it emits there.
\<close>

definition before :: "detector \<Rightarrow> frame list \<Rightarrow> nat \<Rightarrow> detector" where
  "before s fs i = fst (run s (take i fs))"

definition voice_at :: "detector \<Rightarrow> frame list \<Rightarrow> nat \<Rightarrow> bool" where
  "voice_at s fs i = isVoicePresent (frame_metrics (before s fs i) (fs ! i))"

definition emitted_at :: "detector \<Rightarrow> frame list \<Rightarrow> nat \<Rightarrow> event list" where
  "emitted_at s fs i = snd (detect (before s fs i) (fs ! i))"

text \<open>
  A list of event types in which no \<open>SpeechStart\<close> follows another one without a
  \<open>SpeechEnd\<close> in between; \<open>pending\<close> says that a start is open already.
\<close>

fun starts_separated :: "bool \<Rightarrow> event_type list \<Rightarrow> bool" where
  "starts_separated pending [] = True"
| "starts_separated pending (SpeechStart # ts) = (\<not> pending \<and> starts_separated True ts)"
| "starts_separated pending (SpeechEnd # ts) = starts_separated False ts"
| "starts_separated pending (_ # ts) = starts_separated pending ts"

subsection \<open>The invariant the specification gives for a configuration\<close>

text \<open>
  Section 3 of the specification: both thresholds in \<open>(0, 1]\<close>, \<open>fftSize\<close> a power of
  two, \<open>voiceFrequencyMin < voiceFrequencyMax \<le>\<close> Nyquist. The detector has no such
  predicate; it is written down here to compare \<^verbatim>\<open>updateConfig\<close> with it.
\<close>

definition spec_configuration_invariant :: "config \<Rightarrow> bool" where
  "spec_configuration_invariant c =
     (0 < energyThreshold c \<and> energyThreshold c \<le> 1
      \<and> 0 < zeroCrossingThreshold c \<and> zeroCrossingThreshold c \<le> 1
      \<and> (\<exists>k::nat. fftSize c = 2 ^ k)
      \<and> voiceFrequencyMin c < voiceFrequencyMax c
      \<and> voiceFrequencyMax c \<le> sampleRate / 2)"

subsection \<open>Example sessions\<close>

text \<open>
  A detector built with \<^verbatim>\<open>{ fftSize: 32 }\<close>, so that the analyser delivers frames of
  16 samples, in the state in which \<^verbatim>\<open>init\<close> hands it to the first \<^verbatim>\<open>detect\<close>.
  A loud frame is full-scale in both arrays, a quiet one is digital silence.
\<close>

definition session_overrides :: partial_config where
  "session_overrides = no_overrides\<lparr>p_fftSize := Some 32\<rparr>"

definition listening :: detector where
  "listening = (construct session_overrides)\<lparr>onActivityCallback := True,
     audioContext := True, analyser := True, sourceNode := True\<rparr>"

text \<open>The same detector, built with \<^verbatim>\<open>{ fftSize: 32, energyThreshold: 0 }\<close>.\<close>

definition zero_threshold :: detector where
  "zero_threshold = (construct (session_overrides\<lparr>p_energyThreshold := Some 0\<rparr>))\<lparr>
     onActivityCallback := True, audioContext := True, analyser := True, sourceNode := True\<rparr>"

definition loud :: "int \<Rightarrow> frame" where
  "loud t = \<lparr>now = t, frequencyData = replicate 16 255, timeDomainData = replicate 16 0,
     handle = 1\<rparr>"

definition quiet :: "int \<Rightarrow> frame" where
  "quiet t = \<lparr>now = t, frequencyData = replicate 16 0, timeDomainData = replicate 16 128,
     handle = 1\<rparr>"

definition empty_frame :: "int \<Rightarrow> frame" where
  "empty_frame t = \<lparr>now = t, frequencyData = [], timeDomainData = [], handle = 1\<rparr>"

definition interrupted_silence :: "frame list" where
  "interrupted_silence =
     [loud 1000, loud 1300, quiet 1400, loud 1500, loud 5000, quiet 5016]"

definition late_silence :: "frame list" where
  "late_silence = [loud 1000, loud 1250, quiet 1300, quiet 8900, loud 9000]"

definition two_utterances :: "frame list" where
  "two_utterances = [loud 1000, loud 1300, quiet 1400, quiet 2200, loud 3000, loud 3300]"

definition one_utterance :: "frame list" where
  "one_utterance = [loud 1000, loud 1300, loud 1350, quiet 1400, quiet 2200]"

definition band_above_max :: partial_config where
  "band_above_max = no_overrides\<lparr>p_voiceFrequencyMin := Some 4000\<rparr>"

section \<open>Arithmetic of the number model\<close>

lemma jmin_Num: "jmin (Num a) (Num b) = Num (min a b)"
  by (simp add: jmin_def min_def)

lemma jmax_Num: "jmax (Num a) (Num b) = Num (max a b)"
  by (simp add: jmax_def max_def)

lemma foldl_jadd_Num: "foldl jadd (Num a) (map Num rs) = Num (a + sum_list rs)"
  by (induction rs arbitrary: a) (simp_all add: add.assoc)

text \<open>
  With the sample rate of the context, both bin bounds are finite whatever the
  configuration holds, so the loop of \<^verbatim>\<open>calculateVoiceEnergy\<close> always starts at an
  integer and ends.
\<close>

lemma bins_finite:
  "\<exists>m. jfloor (jdiv (Num freq) (jdiv (Num sampleRate) (Num fft))) = Num m"
  by (cases "fft = 0") (simp_all add: sampleRate_def)

section \<open>Feature extraction\<close>

lemma energy_nonneg: "calculateEnergy d = Num e \<Longrightarrow> 0 \<le> e"
  by (auto simp: calculateEnergy_def Let_def split: if_splits)

lemma energy_nonempty: "d \<noteq> [] \<Longrightarrow> \<exists>e. calculateEnergy d = Num e"
proof -
  assume "d \<noteq> []"
  have nn: "0 \<le> foldl (\<lambda>sum x. let normalized = (real (unat x) - 128) / 128
                                in sum + normalized * normalized) a d" if "0 \<le> a" for a :: real
    using that by (induction d arbitrary: a) (simp_all add: Let_def)
  have "0 \<le> foldl (\<lambda>sum x. let normalized = (real (unat x) - 128) / 128
                                in sum + normalized * normalized) 0 d / real (length d)"
    using nn[of 0] by simp
  then show ?thesis using \<open>d \<noteq> []\<close> by (simp add: calculateEnergy_def Let_def)
qed

lemma foldl_bins_NaN: "foldl (\<lambda>sum i. jadd sum (bin_value fd i)) NaN bins = NaN"
  by (induction bins) simp_all

lemma foldl_bins_nonneg:
  "0 \<le> a \<Longrightarrow>
     foldl (\<lambda>sum i. jadd sum (bin_value fd i)) (Num a) bins = NaN
     \<or> (\<exists>r\<ge>0. foldl (\<lambda>sum i. jadd sum (bin_value fd i)) (Num a) bins = Num r)"
proof (induction bins arbitrary: a)
  case Nil
  then show ?case by simp
next
  case (Cons i bins)
  show ?case
  proof (cases "0 \<le> i \<and> i < int (length fd)")
    case True
    then have "jadd (Num a) (bin_value fd i) = Num (a + real (unat (fd ! nat i)) / 255)"
      by (simp add: bin_value_def)
    moreover have "0 \<le> a + real (unat (fd ! nat i)) / 255"
    proof -
      have "0 \<le> real (unat (fd ! nat i))" by (rule of_nat_0_le_iff)
      then have "0 \<le> real (unat (fd ! nat i)) / 255" by (rule divide_nonneg_nonneg) simp
      then show ?thesis using Cons.prems by (rule add_nonneg_nonneg[rotated])
    qed
    ultimately show ?thesis using Cons.IH by simp
  next
    case False
    then have "jadd (Num a) (bin_value fd i) = NaN" by (simp add: bin_value_def)
    then show ?thesis by (simp add: foldl_bins_NaN)
  qed
qed

lemma voice_energy_nonneg: "calculateVoiceEnergy s fd = Num v \<Longrightarrow> 0 \<le> v"
proof -
  assume v: "calculateVoiceEnergy s fd = Num v"
  show ?thesis
  proof (cases "audioContext s")
    case False
    then show ?thesis using v by (simp add: calculateVoiceEnergy_def)
  next
    case True
    define bins where "bins = visited_bins
       (jfloor (jdiv (Num (voiceFrequencyMin (config s))) (jdiv (Num sampleRate) (Num (fftSize (config s))))))
       (jfloor (jdiv (Num (voiceFrequencyMax (config s))) (jdiv (Num sampleRate) (Num (fftSize (config s))))))
       (length fd)"
    have eq: "calculateVoiceEnergy s fd =
       (if 0 < length bins
        then jdiv (foldl (\<lambda>sum i. jadd sum (bin_value fd i)) (Num 0) bins) (Num (real (length bins)))
        else Num 0)"
      using True by (simp add: calculateVoiceEnergy_def Let_def bins_def)
    show ?thesis
    proof (cases "0 < length bins")
      case False
      then show ?thesis using v eq by simp
    next
      case pos: True
      have "(0::real) \<le> 0" by simp
      from foldl_bins_nonneg[OF this, of fd bins]
      show ?thesis
      proof
        assume "foldl (\<lambda>sum i. jadd sum (bin_value fd i)) (Num 0) bins = NaN"
        then show ?thesis using v eq pos by simp
      next
        assume "\<exists>r\<ge>0. foldl (\<lambda>sum i. jadd sum (bin_value fd i)) (Num 0) bins = Num r"
        then obtain r where r: "0 \<le> r"
          "foldl (\<lambda>sum i. jadd sum (bin_value fd i)) (Num 0) bins = Num r" by blast
        then have "v = r / real (length bins)" using v eq pos by simp
        then show ?thesis using r(1) by simp
      qed
    qed
  qed
qed

lemma energy_empty: "calculateEnergy [] = NaN"
  by (simp add: calculateEnergy_def)

lemma zcr_empty: "calculateZeroCrossingRate [] = NaN"
  by (simp add: calculateZeroCrossingRate_def)

subsection \<open>The frames of the example sessions\<close>

lemma replicate_16: "replicate 16 x = [x,x,x,x,x,x,x,x,x,x,x,x,x,x,x,x]"
  by (simp add: numeral_eq_Suc)

lemma energy_loud: "calculateEnergy (replicate 16 0) = Num 1"
  by (simp add: calculateEnergy_def replicate_16)

lemma energy_quiet: "calculateEnergy (replicate 16 128) = Num 0"
  by (simp add: calculateEnergy_def replicate_16)

lemma zcr_loud: "calculateZeroCrossingRate (replicate 16 0) = Num 0"
  by (simp add: calculateZeroCrossingRate_def replicate_16)

lemma zcr_quiet: "calculateZeroCrossingRate (replicate 16 128) = Num 0"
  by (simp add: calculateZeroCrossingRate_def replicate_16)

lemma config_listening:
  "config listening = \<lparr>energyThreshold = 0.02, zeroCrossingThreshold = 0.3,
     minSpeechDuration = 300, minSilenceDuration = 800, fftSize = 32,
     voiceFrequencyMin = 85, voiceFrequencyMax = 3400\<rparr>"
  by (simp add: listening_def construct_def spread_def DEFAULT_CONFIG_def
      session_overrides_def no_overrides_def)

lemma listening_record:
  "listening = \<lparr>audioContext = True, analyser = True, sourceNode = True,
     animationFrame = None,
     config = \<lparr>energyThreshold = 0.02, zeroCrossingThreshold = 0.3,
       minSpeechDuration = 300, minSilenceDuration = 800, fftSize = 32,
       voiceFrequencyMin = 85, voiceFrequencyMax = 3400\<rparr>,
     isSpeaking = False, speechStartTime = 0, lastSpeechTime = 0, silenceStartTime = 0,
     energyHistory = [], onActivityCallback = True\<rparr>"
  by (simp add: listening_def construct_def spread_def DEFAULT_CONFIG_def
      session_overrides_def no_overrides_def)

lemma upto_0_5: "[0..5::int] = [0, 1, 2, 3, 4, 5]"
  by (simp add: upto.simps)

lemma bin_value_loud: "0 \<le> i \<Longrightarrow> i < 16 \<Longrightarrow> bin_value (replicate 16 255) i = Num 1"
  by (simp add: bin_value_def)

lemma bin_value_quiet: "0 \<le> i \<Longrightarrow> i < 16 \<Longrightarrow> bin_value (replicate 16 0) i = Num 0"
  by (simp add: bin_value_def)

lemma voice_loud:
  "audioContext s \<Longrightarrow> config s = config listening \<Longrightarrow>
     calculateVoiceEnergy s (replicate 16 255) = Num 1"
  by (simp add: calculateVoiceEnergy_def config_listening sampleRate_def upto_0_5 bin_value_loud)

lemma voice_quiet:
  "audioContext s \<Longrightarrow> config s = config listening \<Longrightarrow>
     calculateVoiceEnergy s (replicate 16 0) = Num 0"
  by (simp add: calculateVoiceEnergy_def config_listening sampleRate_def upto_0_5 bin_value_quiet)

lemma voice_empty:
  "audioContext s \<Longrightarrow> config s = config listening \<Longrightarrow> calculateVoiceEnergy s [] = Num 0"
  by (simp add: calculateVoiceEnergy_def config_listening sampleRate_def)

lemmas session_simps = listening_record detect_def frame_metrics_def speech_machine_def
  emitEvent_def loud_def quiet_def empty_frame_def energy_loud energy_quiet energy_empty
  zcr_loud zcr_quiet zcr_empty voice_loud voice_quiet voice_empty Let_def
  energyHistorySize_def config_listening jmin_def jmax_def jgt_def
  before_def voice_at_def emitted_at_def

lemma valid_fftSize_32: "valid_fftSize 32"
  by (simp add: valid_fftSize_def upt_rec_numeral)

lemma valid_fftSize_2048: "valid_fftSize 2048"
  by (simp add: valid_fftSize_def upt_rec_numeral)

lemma init_listening:
  "init (construct session_overrides) True Available f = (detect listening f, None)"
proof -
  have "fftSize (config (construct session_overrides)) = 32"
    by (simp add: construct_def spread_def session_overrides_def no_overrides_def)
  then show ?thesis
    by (simp add: init_def Let_def valid_fftSize_32 listening_def)
qed

section \<open>Lifecycle\<close>

lemma stop_fields:
  "isSpeaking (fst (stop s)) = False" "speechStartTime (fst (stop s)) = 0"
  "silenceStartTime (fst (stop s)) = 0" "lastSpeechTime (fst (stop s)) = 0"
  "analyser (fst (stop s)) = False" "audioContext (fst (stop s)) = False"
  "sourceNode (fst (stop s)) = False"
  by (auto simp: stop_def Let_def split: option.splits prod.splits if_splits)

lemma stop_again: "stop (fst (stop s)) = (fst (stop s), [])"
  by (cases s) (auto simp: stop_def Let_def split: option.splits)

lemma stop_construct: "stop (construct p) = (construct p, [])"
  by (simp add: stop_def construct_def)

lemma stop_half_initialised:
  "snd (stop (fst (fst (init (construct no_overrides) cb NoStreamSource f)))) = [CloseContext]"
proof -
  have "fftSize (config (construct no_overrides)) = 2048"
    by (simp add: construct_def spread_def no_overrides_def DEFAULT_CONFIG_def)
  then show ?thesis
    by (simp add: init_def Let_def valid_fftSize_2048 stop_def construct_def)
qed

text \<open>
  C9. \<^verbatim>\<open>stop\<close> has no failing branch, every call on a resource being guarded by the
  resource's presence: from every state, reached by a complete \<^verbatim>\<open>init\<close>, by one that
  failed half-way or by none, it returns with \<open>isSpeaking = false\<close> and the three
  timers at 0, which is what \<^verbatim>\<open>getState\<close> then reports. A second \<^verbatim>\<open>stop\<close> finds
  no resource, makes no call and changes nothing, and so does a \<^verbatim>\<open>stop\<close> right
  after construction; after an \<^verbatim>\<open>init\<close> that failed at the stream source, it closes
  the audio context and nothing else.
\<close>

theorem stop_idempotent_and_resets:
  "isSpeaking (fst (stop s)) = False
   \<and> speechStartTime (fst (stop s)) = 0
   \<and> silenceStartTime (fst (stop s)) = 0
   \<and> lastSpeechTime (fst (stop s)) = 0
   \<and> r_isSpeaking (getState (fst (stop s)) t) = False
   \<and> r_lastSpeechTime (getState (fst (stop s)) t) = 0
   \<and> stop (fst (stop s)) = (fst (stop s), [])
   \<and> stop (construct p) = (construct p, [])
   \<and> snd (stop (fst (fst (init (construct no_overrides) cb NoStreamSource f)))) = [CloseContext]"
  by (simp add: stop_fields stop_again stop_construct stop_half_initialised getState_def)

lemma default_configuration_valid: "spec_configuration_invariant (config (construct no_overrides))"
proof -
  have "(2048::real) = 2 ^ (11::nat)" by simp
  then have "\<exists>k::nat. (2048::real) = 2 ^ k" by (rule exI)
  then show ?thesis
    by (simp add: spec_configuration_invariant_def construct_def spread_def no_overrides_def
        DEFAULT_CONFIG_def sampleRate_def)
qed

text \<open>
  C3, as stated, fails: \<^verbatim>\<open>updateConfig\<close> has no validation. From the default
  configuration, which satisfies the invariant of the specification, the update
  \<^verbatim>\<open>{ voiceFrequencyMin: 4000 }\<close> is accepted, and the live configuration then has
  \<open>voiceFrequencyMin = 4000 \<ge> 3400 = voiceFrequencyMax\<close>.
\<close>

theorem updateConfig_accepts_invalid:
  "spec_configuration_invariant (config (construct no_overrides))
   \<and> \<not> spec_configuration_invariant (config (updateConfig (construct no_overrides) band_above_max))
   \<and> config (updateConfig (construct no_overrides) band_above_max) \<noteq> config (construct no_overrides)
   \<and> voiceFrequencyMin (config (updateConfig (construct no_overrides) band_above_max)) = 4000
   \<and> voiceFrequencyMax (config (updateConfig (construct no_overrides) band_above_max)) = 3400"
proof -
  have "voiceFrequencyMin (config (updateConfig (construct no_overrides) band_above_max)) = 4000"
    and "voiceFrequencyMax (config (updateConfig (construct no_overrides) band_above_max)) = 3400"
    and "voiceFrequencyMin (config (construct no_overrides)) = 85"
    by (simp_all add: updateConfig_def construct_def spread_def band_above_max_def
        no_overrides_def DEFAULT_CONFIG_def)
  then show ?thesis
    using default_configuration_valid
    by (auto simp: spec_configuration_invariant_def)
qed

text \<open>
  C3, amended. A configuration update is never rejected: \<^verbatim>\<open>updateConfig\<close> replaces
  each field the update supplies, whatever its value, keeps each field it does not
  supply, and changes nothing else in the detector.
\<close>

theorem updateConfig_merges_unchecked:
  "energyThreshold (config (updateConfig s p))
     = (case p_energyThreshold p of Some v \<Rightarrow> v | None \<Rightarrow> energyThreshold (config s))
   \<and> zeroCrossingThreshold (config (updateConfig s p))
     = (case p_zeroCrossingThreshold p of Some v \<Rightarrow> v | None \<Rightarrow> zeroCrossingThreshold (config s))
   \<and> minSpeechDuration (config (updateConfig s p))
     = (case p_minSpeechDuration p of Some v \<Rightarrow> v | None \<Rightarrow> minSpeechDuration (config s))
   \<and> minSilenceDuration (config (updateConfig s p))
     = (case p_minSilenceDuration p of Some v \<Rightarrow> v | None \<Rightarrow> minSilenceDuration (config s))
   \<and> fftSize (config (updateConfig s p))
     = (case p_fftSize p of Some v \<Rightarrow> v | None \<Rightarrow> fftSize (config s))
   \<and> voiceFrequencyMin (config (updateConfig s p))
     = (case p_voiceFrequencyMin p of Some v \<Rightarrow> v | None \<Rightarrow> voiceFrequencyMin (config s))
   \<and> voiceFrequencyMax (config (updateConfig s p))
     = (case p_voiceFrequencyMax p of Some v \<Rightarrow> v | None \<Rightarrow> voiceFrequencyMax (config s))
   \<and> (updateConfig s p)\<lparr>config := config s\<rparr> = s"
  by (simp add: updateConfig_def spread_def)

section \<open>Adaptive threshold and confidence\<close>

lemma pushed_history:
  "history (frame_metrics s f) =
     (if energyHistorySize < length (energyHistory s) + 1
      then tl (energyHistory s @ [calculateEnergy (timeDomainData f)])
      else energyHistory s @ [calculateEnergy (timeDomainData f)])"
  by (simp add: frame_metrics_def Let_def)

lemma history_nonempty: "history (frame_metrics s f) \<noteq> []"
  by (cases "energyHistory s") (auto simp: pushed_history energyHistorySize_def)

lemma threshold_formula:
  "adaptiveThreshold (frame_metrics s f) =
     jmax (Num (energyThreshold (config s)))
       (jmul (jdiv (foldl jadd (Num 0) (history (frame_metrics s f)))
                (Num (real (length (history (frame_metrics s f)))))) (Num 1.5))"
  by (simp add: frame_metrics_def Let_def)

lemma threshold_finite:
  assumes "history (frame_metrics s f) = map Num hs"
  shows "adaptiveThreshold (frame_metrics s f) =
     Num (max (energyThreshold (config s)) (sum_list hs / real (length hs) * 1.5))"
proof -
  have "hs \<noteq> []" using history_nonempty[of s f] assms by auto
  then show ?thesis
    by (simp add: threshold_formula assms foldl_jadd_Num jmax_Num)
qed

lemma confidence_formula:
  "frameConfidence (frame_metrics s f) =
     jadd (jadd (jmul (jmin (Num 1) (jdiv (calculateEnergy (timeDomainData f))
                                       (adaptiveThreshold (frame_metrics s f)))) (Num 0.4))
                (jmul (jmin (Num 1) (jdiv (calculateVoiceEnergy s (frequencyData f))
                                       (adaptiveThreshold (frame_metrics s f)))) (Num 0.5)))
          (jmul (if jlt (calculateZeroCrossingRate (timeDomainData f))
                        (Num (zeroCrossingThreshold (config s))) then Num 1 else Num 0) (Num 0.1))"
  "isVoicePresent (frame_metrics s f) = jgt (frameConfidence (frame_metrics s f)) (Num 0.6)"
  by (simp_all add: frame_metrics_def Let_def)

lemma history_finite:
  assumes "energyHistory s = map Num rs" "calculateEnergy (timeDomainData f) = Num e"
  shows "\<exists>hs. history (frame_metrics s f) = map Num hs"
proof -
  have "energyHistory s @ [calculateEnergy (timeDomainData f)] = map Num (rs @ [e])"
    using assms by simp
  then show ?thesis
    unfolding pushed_history by (metis map_tl)
qed















lemma zero_threshold_record:
  "zero_threshold = \<lparr>audioContext = True, analyser = True, sourceNode = True,
     animationFrame = None,
     config = \<lparr>energyThreshold = 0, zeroCrossingThreshold = 0.3,
       minSpeechDuration = 300, minSilenceDuration = 800, fftSize = 32,
       voiceFrequencyMin = 85, voiceFrequencyMax = 3400\<rparr>,
     isSpeaking = False, speechStartTime = 0, lastSpeechTime = 0, silenceStartTime = 0,
     energyHistory = [], onActivityCallback = True\<rparr>"
  by (simp add: zero_threshold_def construct_def spread_def DEFAULT_CONFIG_def
      session_overrides_def no_overrides_def)

lemma voice_quiet_zero_threshold:
  "calculateVoiceEnergy zero_threshold (replicate 16 0) = Num 0"
  by (simp add: calculateVoiceEnergy_def zero_threshold_record sampleRate_def upto_0_5
      bin_value_quiet)

text \<open>
  C7, as stated, fails. The constructor accepts \<^verbatim>\<open>{ energyThreshold: 0 }\<close>. The first
  frame of such a detector, if it is digital silence, has energy 0 and voice-band
  energy 0, both not negative; the adaptive threshold is \<open>max(0, 0 * 1.5) = 0\<close>, the
  energy score is \<^verbatim>\<open>Math.min(1, 0 / 0)\<close>, and the confidence is \<open>NaN\<close>, which is not a
  number between 0 and 1.
\<close>

theorem zero_threshold_confidence_is_NaN:
  "energyThreshold (config zero_threshold) = 0
   \<and> energyHistory zero_threshold = []
   \<and> calculateEnergy (timeDomainData (quiet 1000)) = Num 0
   \<and> calculateVoiceEnergy zero_threshold (frequencyData (quiet 1000)) = Num 0
   \<and> adaptiveThreshold (frame_metrics zero_threshold (quiet 1000)) = Num 0
   \<and> frameConfidence (frame_metrics zero_threshold (quiet 1000)) = NaN
   \<and> \<not> isVoicePresent (frame_metrics zero_threshold (quiet 1000))"
  by (simp add: quiet_def energy_quiet zcr_quiet voice_quiet_zero_threshold frame_metrics_def
      Let_def energyHistorySize_def jmin_def jmax_def jgt_def)
    (simp add: zero_threshold_record)

text \<open>
  C7, amended. Take a detector whose configured energy threshold is positive and whose
  energy history holds numbers, and a frame whose energy \<open>e\<close> and voice-band energy
  \<open>v\<close> are numbers; neither of them is ever negative. Then the adaptive threshold is a
  positive number \<open>a\<close>, the confidence is
  \<open>0.4 * min 1 (e / a) + 0.5 * min 1 (v / a) + 0.1 * (1 if zcr < zeroCrossingThreshold else 0)\<close>,
  it lies between 0 and 1, and the frame counts as voice exactly when it exceeds 0.6.
\<close>

theorem confidence_score:
  assumes "0 < energyThreshold (config s)"
    and "energyHistory s = map Num rs"
    and "calculateEnergy (timeDomainData f) = Num e"
    and "calculateVoiceEnergy s (frequencyData f) = Num v"
  shows "\<exists>a c. adaptiveThreshold (frame_metrics s f) = Num a \<and> 0 < a
     \<and> frameConfidence (frame_metrics s f) = Num c
     \<and> c = 0.4 * min 1 (e / a) + 0.5 * min 1 (v / a)
           + 0.1 * (if jlt (calculateZeroCrossingRate (timeDomainData f))
                          (Num (zeroCrossingThreshold (config s))) then 1 else 0)
     \<and> 0 \<le> e \<and> 0 \<le> v \<and> 0 \<le> c \<and> c \<le> 1
     \<and> isVoicePresent (frame_metrics s f) = (0.6 < c)"
proof -
  from history_finite[OF assms(2,3)]
  obtain hs where hs: "history (frame_metrics s f) = map Num hs" ..
  define a where "a = max (energyThreshold (config s)) (sum_list hs / real (length hs) * 1.5)"
  define z :: real where
    "z = (if jlt (calculateZeroCrossingRate (timeDomainData f))
                 (Num (zeroCrossingThreshold (config s))) then 1 else 0)"
  define c where "c = 0.4 * min 1 (e / a) + 0.5 * min 1 (v / a) + 0.1 * z"
  have thr: "adaptiveThreshold (frame_metrics s f) = Num a"
    using threshold_finite[OF hs] by (simp add: a_def)
  have pos: "0 < a" using assms(1) by (simp add: a_def less_max_iff_disj)
  have e0: "0 \<le> e" using energy_nonneg[OF assms(3)] .
  have conf: "frameConfidence (frame_metrics s f) = Num c"
    using pos by (simp add: confidence_formula thr assms(3,4) jmin_Num c_def z_def)
  have es: "0 \<le> min 1 (e / a)" "min 1 (e / a) \<le> 1" using e0 pos by simp_all
  have v0: "0 \<le> v" using voice_energy_nonneg[OF assms(4)] .
  have vs: "0 \<le> min 1 (v / a)" "min 1 (v / a) \<le> 1" using v0 pos by simp_all
  have zs: "0 \<le> z" "z \<le> 1" by (simp_all add: z_def)
  have lo: "0 \<le> c" unfolding c_def using es(1) vs(1) zs(1) by linarith
  have hi: "c \<le> 1" unfolding c_def using es(2) vs(2) zs(2) by linarith
  have vp: "isVoicePresent (frame_metrics s f) = (0.6 < c)"
    by (simp add: confidence_formula(2) conf jgt_def)
  show ?thesis using thr pos conf e0 v0 lo hi vp unfolding c_def z_def by blast
qed

theorem confidence_score_witness:
  "0 < energyThreshold (config listening)
   \<and> energyHistory listening = map Num []
   \<and> calculateEnergy (timeDomainData (loud 1000)) = Num 1
   \<and> calculateVoiceEnergy listening (frequencyData (loud 1000)) = Num 1
   \<and> adaptiveThreshold (frame_metrics listening (loud 1000)) = Num (3 / 2)
   \<and> frameConfidence (frame_metrics listening (loud 1000)) = Num (7 / 10)
   \<and> isVoicePresent (frame_metrics listening (loud 1000))"
proof -
  have h1: "0 < energyThreshold (config listening)" by (simp add: config_listening)
  have h2: "energyHistory listening = map Num []" by (simp add: listening_record)
  have h3: "calculateEnergy (timeDomainData (loud 1000)) = Num 1"
    by (simp add: loud_def energy_loud)
  have h4: "calculateVoiceEnergy listening (frequencyData (loud 1000)) = Num 1"
    by (simp add: loud_def voice_loud listening_record config_listening)
  have z: "jlt (calculateZeroCrossingRate (timeDomainData (loud 1000)))
             (Num (zeroCrossingThreshold (config listening)))"
    by (simp add: loud_def zcr_loud config_listening)
  have thr: "adaptiveThreshold (frame_metrics listening (loud 1000)) = Num (3 / 2)"
    using threshold_finite[of listening "loud 1000" "[1]"]
    by (simp add: pushed_history h2 h3 energyHistorySize_def config_listening)
  from confidence_score[OF h1 h2 h3 h4] z
  obtain a c where ac: "adaptiveThreshold (frame_metrics listening (loud 1000)) = Num a"
    "frameConfidence (frame_metrics listening (loud 1000)) = Num c"
    "c = 0.4 * min 1 (1 / a) + 0.5 * min 1 (1 / a) + 0.1"
    "isVoicePresent (frame_metrics listening (loud 1000)) = (0.6 < c)"
    by auto
  have a: "a = 3 / 2" using ac(1) thr by simp
  have "c = 7 / 10" unfolding ac(3) a by simp
  then show ?thesis using h1 h2 h3 h4 thr ac(2,4) by simp
qed

section \<open>Sessions\<close>

lemma detect_off: "\<not> analyser s \<Longrightarrow> detect s f = (s, [])"
  by (simp add: detect_def)

lemma machine_keeps:
  "config (fst (speech_machine s t e c v)) = config s"
  "analyser (fst (speech_machine s t e c v)) = analyser s"
  "audioContext (fst (speech_machine s t e c v)) = audioContext s"
  "onActivityCallback (fst (speech_machine s t e c v)) = onActivityCallback s"
  "energyHistory (fst (speech_machine s t e c v)) = energyHistory s"
  by (simp_all add: speech_machine_def Let_def)

lemma detect_keeps:
  "config (fst (detect s f)) = config s"
  "analyser (fst (detect s f)) = analyser s"
  "audioContext (fst (detect s f)) = audioContext s"
  "onActivityCallback (fst (detect s f)) = onActivityCallback s"
  by (simp_all add: detect_def Let_def split_beta machine_keeps)

lemma detect_history:
  "analyser s \<Longrightarrow> energyHistory (fst (detect s f)) = history (frame_metrics s f)"
  by (simp add: detect_def Let_def split_beta machine_keeps)

lemma run_keeps:
  "config (fst (run s fs)) = config s"
  "analyser (fst (run s fs)) = analyser s"
  "audioContext (fst (run s fs)) = audioContext s"
  "onActivityCallback (fst (run s fs)) = onActivityCallback s"
  by (induction fs arbitrary: s; simp add: split_beta detect_keeps)+

lemma run_off: "\<not> analyser s \<Longrightarrow> run s fs = (s, [])"
  by (induction fs) (simp_all add: detect_off)

lemma run_append:
  "run s (xs @ ys) =
     (fst (run (fst (run s xs)) ys), snd (run s xs) @ snd (run (fst (run s xs)) ys))"
  by (induction xs arbitrary: s) (simp_all add: split_beta)

lemma run_snoc:
  "fst (run s (fs @ [f])) = fst (detect (fst (run s fs)) f)"
  "snd (run s (fs @ [f])) = snd (run s fs) @ snd (detect (fst (run s fs)) f)"
  by (simp_all add: run_append split_beta)

lemma before_snoc: "i \<le> length fs \<Longrightarrow> before s (fs @ [f]) i = before s fs i"
  by (simp add: before_def)

lemma before_take: "j \<le> i \<Longrightarrow> before s (take i fs) j = before s fs j"
  by (simp add: before_def min_def)

lemma voice_at_snoc: "i < length fs \<Longrightarrow> voice_at s (fs @ [f]) i = voice_at s fs i"
  by (simp add: voice_at_def before_snoc nth_append)

lemma voice_at_last:
  "voice_at s (fs @ [f]) (length fs) = isVoicePresent (frame_metrics (fst (run s fs)) f)"
  by (simp add: voice_at_def before_def)

lemma voice_at_take:
  "j < i \<Longrightarrow> i \<le> length fs \<Longrightarrow> voice_at s (take i fs) j = voice_at s fs j"
  by (simp add: voice_at_def before_take)

lemma session_history:
  assumes "analyser s" "energyHistory s = []"
  shows "energyHistory (fst (run s fs)) =
           drop (length fs - 10) (map (\<lambda>f. calculateEnergy (timeDomainData f)) fs)"
proof (induction fs rule: rev_induct)
  case Nil
  then show ?case using assms by simp
next
  case (snoc f fs)
  let ?es = "map (\<lambda>f. calculateEnergy (timeDomainData f)) fs"
  let ?e = "calculateEnergy (timeDomainData f)"
  have an: "analyser (fst (run s fs))" using assms(1) by (simp add: run_keeps)
  have "energyHistory (fst (run s (fs @ [f]))) = history (frame_metrics (fst (run s fs)) f)"
    by (simp add: run_snoc detect_history[OF an])
  also have "\<dots> = (if 10 < length (drop (length fs - 10) ?es) + 1
                  then tl (drop (length fs - 10) ?es @ [?e])
                  else drop (length fs - 10) ?es @ [?e])"
    by (simp add: pushed_history snoc.IH energyHistorySize_def)
  also have "\<dots> = drop (length (fs @ [f]) - 10)
                     (map (\<lambda>f. calculateEnergy (timeDomainData f)) (fs @ [f]))"
  proof (cases "10 \<le> length fs")
    case True
    then have "drop (length fs - 10) ?es \<noteq> []" by simp
    then have "tl (drop (length fs - 10) ?es @ [?e]) = tl (drop (length fs - 10) ?es) @ [?e]"
      by simp
    also have "tl (drop (length fs - 10) ?es) = drop (Suc (length fs - 10)) ?es"
      by (simp add: drop_Suc tl_drop)
    finally have "tl (drop (length fs - 10) ?es @ [?e])
                    = drop (Suc (length fs - 10)) ?es @ [?e]" .
    moreover have "Suc (length fs - 10) = length fs - 9" using True by arith
    ultimately show ?thesis using True by simp
  next
    case False
    then show ?thesis by simp
  qed
  finally show ?case .
qed

lemma energies_finite:
  "\<forall>g\<in>set gs. timeDomainData g \<noteq> [] \<Longrightarrow>
     \<exists>es. map (\<lambda>g. calculateEnergy (timeDomainData g)) gs = map Num es"
proof (induction gs)
  case Nil
  then show ?case by simp
next
  case (Cons g gs)
  then obtain es where es: "map (\<lambda>g. calculateEnergy (timeDomainData g)) gs = map Num es"
    by auto
  from Cons.prems energy_nonempty[of "timeDomainData g"]
  obtain e where "calculateEnergy (timeDomainData g) = Num e" by auto
  then have "map (\<lambda>g. calculateEnergy (timeDomainData g)) (g # gs) = map Num (e # es)"
    using es by simp
  then show ?case by blast
qed


text \<open>
  C8. Start from a detector that polls and whose energy history is empty, as \<^verbatim>\<open>init\<close>
  hands a fresh detector to its first \<^verbatim>\<open>detect\<close>, and let it poll the frames
  \<open>fs\<close> and then \<open>f\<close>. At \<open>f\<close> the history, after the push, consists of the energies
  of the last up to 10 frames polled, the oldest first, and this is the history the
  detector keeps. The adaptive threshold is the maximum of the configured energy
  threshold and 1.5 times the quotient of the sum of the history by its length. When no
  frame polled was empty, the history holds numbers, the quotient is their mean, and
  the adaptive threshold is a number that is at least the configured threshold.
\<close>

theorem adaptive_threshold_tracking:
  assumes "analyser s" and "energyHistory s = []"
  shows "history (frame_metrics (fst (run s fs)) f)
           = drop (length fs + 1 - 10)
               (map (\<lambda>g. calculateEnergy (timeDomainData g)) (fs @ [f]))
     \<and> length (history (frame_metrics (fst (run s fs)) f)) \<le> 10
     \<and> energyHistory (fst (run s (fs @ [f]))) = history (frame_metrics (fst (run s fs)) f)
     \<and> adaptiveThreshold (frame_metrics (fst (run s fs)) f)
         = jmax (Num (energyThreshold (config s)))
             (jmul (jdiv (foldl jadd (Num 0) (history (frame_metrics (fst (run s fs)) f)))
                      (Num (real (length (history (frame_metrics (fst (run s fs)) f))))))
                (Num 1.5))
     \<and> ((\<forall>g\<in>set (fs @ [f]). timeDomainData g \<noteq> []) \<longrightarrow>
          (\<exists>hs. history (frame_metrics (fst (run s fs)) f) = map Num hs
             \<and> adaptiveThreshold (frame_metrics (fst (run s fs)) f)
                 = Num (max (energyThreshold (config s)) (sum_list hs / real (length hs) * 1.5))
             \<and> energyThreshold (config s)
                 \<le> max (energyThreshold (config s)) (sum_list hs / real (length hs) * 1.5)))"
proof -
  let ?s = "fst (run s fs)"
  let ?m = "frame_metrics ?s f"
  have an: "analyser ?s" using assms(1) by (simp add: run_keeps)
  have kept: "energyHistory (fst (run s (fs @ [f]))) = history ?m"
    by (simp add: run_snoc detect_history[OF an])
  have hist: "history ?m
      = drop (length fs + 1 - 10) (map (\<lambda>g. calculateEnergy (timeDomainData g)) (fs @ [f]))"
    using session_history[OF assms, of "fs @ [f]"] kept by simp
  have len: "length (history ?m) \<le> 10" unfolding hist by simp
  have thr: "adaptiveThreshold ?m
         = jmax (Num (energyThreshold (config s)))
             (jmul (jdiv (foldl jadd (Num 0) (history ?m)) (Num (real (length (history ?m)))))
                (Num 1.5))"
    by (simp add: threshold_formula run_keeps)
  have fin: "\<exists>hs. history ?m = map Num hs
             \<and> adaptiveThreshold ?m
                 = Num (max (energyThreshold (config s)) (sum_list hs / real (length hs) * 1.5))
             \<and> energyThreshold (config s)
                 \<le> max (energyThreshold (config s)) (sum_list hs / real (length hs) * 1.5)"
    if ne: "\<forall>g\<in>set (fs @ [f]). timeDomainData g \<noteq> []"
  proof -
    from energies_finite[OF ne]
    obtain es where "map (\<lambda>g. calculateEnergy (timeDomainData g)) (fs @ [f]) = map Num es" ..
    then have hs: "history ?m = map Num (drop (length fs + 1 - 10) es)"
      unfolding hist by (simp add: drop_map)
    from threshold_finite[OF hs] hs show ?thesis
      by (intro exI[of _ "drop (length fs + 1 - 10) es"]) (simp add: run_keeps)
  qed
  show ?thesis using hist len kept thr fin by blast
qed

theorem adaptive_threshold_tracking_witness:
  "analyser listening \<and> energyHistory listening = []
   \<and> timeDomainData (loud 1000) \<noteq> [] \<and> timeDomainData (quiet 1016) \<noteq> []
   \<and> history (frame_metrics (fst (run listening [loud 1000])) (quiet 1016)) = [Num 1, Num 0]
   \<and> energyHistory (fst (run listening ([loud 1000] @ [quiet 1016]))) = [Num 1, Num 0]
   \<and> adaptiveThreshold (frame_metrics (fst (run listening [loud 1000])) (quiet 1016))
       = Num (3 / 4)"
proof -
  have h1: "analyser listening" and h2: "energyHistory listening = []"
    by (simp_all add: listening_record)
  have ne: "\<forall>g\<in>set ([loud 1000] @ [quiet 1016]). timeDomainData g \<noteq> []"
    by (simp add: loud_def quiet_def)
  have et: "energyThreshold (config listening) = 2 / 100" by (simp add: config_listening)
  note t = adaptive_threshold_tracking[OF h1 h2, of "[loud 1000]" "quiet 1016"]
  from t have hist: "history (frame_metrics (fst (run listening [loud 1000])) (quiet 1016))
      = [Num 1, Num 0]"
    by (simp add: loud_def quiet_def energy_loud energy_quiet)
  from t have kept: "energyHistory (fst (run listening ([loud 1000] @ [quiet 1016])))
      = history (frame_metrics (fst (run listening [loud 1000])) (quiet 1016))"
    by blast
  from t ne obtain hs where hs:
    "history (frame_metrics (fst (run listening [loud 1000])) (quiet 1016)) = map Num hs"
    "adaptiveThreshold (frame_metrics (fst (run listening [loud 1000])) (quiet 1016))
       = Num (max (energyThreshold (config listening)) (sum_list hs / real (length hs) * 1.5))"
    by blast
  have "map Num hs = map Num [1, 0]" using hs(1) hist by simp
  then have "hs = [1, 0]" by (metis jsnum.inject inj_onI inj_map_eq_map)
  then have "adaptiveThreshold (frame_metrics (fst (run listening [loud 1000])) (quiet 1016))
       = Num (3 / 4)"
    using hs(2) et by simp
  then show ?thesis using h1 h2 ne hist kept by simp
qed

section \<open>The speech state machine, step by step\<close>

lemma machine_events:
  "snd (speech_machine s t e c v) = [] \<or>
   (\<exists>ev. snd (speech_machine s t e c v) = [ev] \<and> timestamp ev = t \<and> onActivityCallback s)"
  by (simp add: speech_machine_def Let_def emitEvent_def)

lemma detect_events:
  "snd (detect s f) = [] \<or>
   (\<exists>ev. snd (detect s f) = [ev] \<and> timestamp ev = now f \<and> onActivityCallback s)"
  using machine_events[of "s\<lparr>energyHistory := history (frame_metrics s f)\<rparr>" "now f"]
  by (auto simp: detect_def Let_def split_beta)

lemma machine_start:
  "onActivityCallback s \<Longrightarrow>
   map ev_type (snd (speech_machine s t e c v)) = [SpeechStart] \<and> \<not> isSpeaking s
     \<and> isSpeaking (fst (speech_machine s t e c v))
   \<or> map ev_type (snd (speech_machine s t e c v)) = [SpeechEnd]
     \<and> \<not> isSpeaking (fst (speech_machine s t e c v))
   \<or> map ev_type (snd (speech_machine s t e c v)) \<in> {[], [SpeechActive], [Noise]}
     \<and> isSpeaking (fst (speech_machine s t e c v)) = isSpeaking s"
  by (simp add: speech_machine_def Let_def emitEvent_def)

lemma detect_start:
  "onActivityCallback s \<Longrightarrow>
   map ev_type (snd (detect s f)) = [SpeechStart] \<and> \<not> isSpeaking s
     \<and> isSpeaking (fst (detect s f))
   \<or> map ev_type (snd (detect s f)) = [SpeechEnd] \<and> \<not> isSpeaking (fst (detect s f))
   \<or> map ev_type (snd (detect s f)) \<in> {[], [SpeechActive], [Noise]}
     \<and> isSpeaking (fst (detect s f)) = isSpeaking s"
  using machine_start[of "s\<lparr>energyHistory := history (frame_metrics s f)\<rparr>" "now f"]
  by (cases "analyser s") (auto simp: detect_def Let_def split_beta)

lemma detect_voice:
  assumes "analyser s" "isVoicePresent (frame_metrics s f)"
  shows "lastSpeechTime (fst (detect s f)) = now f"
    "isSpeaking s \<Longrightarrow> isSpeaking (fst (detect s f))"
    "isSpeaking s \<Longrightarrow> speechStartTime (fst (detect s f)) = speechStartTime s"
    "\<not> isSpeaking s \<Longrightarrow> speechStartTime s = 0 \<Longrightarrow>
       \<not> isSpeaking (fst (detect s f)) \<and> speechStartTime (fst (detect s f)) = now f"
    "\<not> isSpeaking s \<Longrightarrow> speechStartTime s \<noteq> 0 \<Longrightarrow>
       speechStartTime (fst (detect s f)) = speechStartTime s \<and>
       isSpeaking (fst (detect s f))
         = (minSpeechDuration (config s) \<le> real_of_int (now f - speechStartTime s))"
  using assms by (simp_all add: detect_def Let_def split_beta speech_machine_def)

lemma detect_no_voice:
  assumes "analyser s" "\<not> isVoicePresent (frame_metrics s f)"
  shows "lastSpeechTime (fst (detect s f)) = lastSpeechTime s"
    "isSpeaking (fst (detect s f)) \<Longrightarrow> isSpeaking s"
    "\<not> isSpeaking s \<Longrightarrow> speechStartTime (fst (detect s f)) =
       (if speechStartTime s \<noteq> 0
           \<and> real_of_int (now f - speechStartTime s) < minSpeechDuration (config s)
        then 0 else speechStartTime s)"
    "isSpeaking s \<Longrightarrow> \<not> isSpeaking (fst (detect s f)) \<Longrightarrow>
       speechStartTime (fst (detect s f)) = 0"
  using assms
  by (simp_all add: detect_def Let_def split_beta speech_machine_def split: if_splits)

lemma detect_emits_end:
  assumes "e \<in> set (snd (detect s f))" "ev_type e = SpeechEnd"
  shows "analyser s \<and> \<not> isVoicePresent (frame_metrics s f) \<and> isSpeaking s
         \<and> duration e
             = Some (real_of_int (now f - lastSpeechTime s) + minSilenceDuration (config s))
         \<and> timestamp e = now f"
  using assms
  by (auto simp: detect_def Let_def split_beta speech_machine_def emitEvent_def
      split: if_splits)

lemma detect_emits_other:
  assumes "e \<in> set (snd (detect s f))" "ev_type e \<noteq> SpeechEnd"
  shows "duration e = None"
  using assms
  by (auto simp: detect_def Let_def split_beta speech_machine_def emitEvent_def
      split: if_splits)


section \<open>Sessions of the speech state machine\<close>

text \<open>
  While the detector is speaking, its \<open>lastSpeechTime\<close> is the time of the last frame
  with voice, and no frame after that one had voice.
\<close>

lemma last_voice_invariant:
  assumes "\<not> isSpeaking s"
  shows "isSpeaking (fst (run s fs)) \<Longrightarrow>
     \<exists>j<length fs. voice_at s fs j \<and> lastSpeechTime (fst (run s fs)) = now (fs ! j)
        \<and> (\<forall>k. j < k \<and> k < length fs \<longrightarrow> \<not> voice_at s fs k)"
proof (induction fs rule: rev_induct)
  case Nil
  then show ?case using assms by simp
next
  case (snoc f fs)
  let ?s = "fst (run s fs)"
  have sp: "isSpeaking (fst (detect ?s f))" using snoc.prems by (simp add: run_snoc)
  have an: "analyser ?s" using sp assms
    by (cases "analyser s") (auto simp: run_keeps run_off detect_off)
  show ?case
  proof (cases "isVoicePresent (frame_metrics ?s f)")
    case True
    have "voice_at s (fs @ [f]) (length fs)" using True by (simp add: voice_at_last)
    moreover have "lastSpeechTime (fst (run s (fs @ [f]))) = now ((fs @ [f]) ! length fs)"
      using detect_voice(1)[OF an True] by (simp add: run_snoc)
    ultimately show ?thesis by (intro exI[of _ "length fs"]) auto
  next
    case False
    have "isSpeaking ?s" using detect_no_voice(2)[OF an False sp] .
    from snoc.IH[OF this] obtain j where j: "j < length fs" "voice_at s fs j"
      "lastSpeechTime ?s = now (fs ! j)" "\<forall>k. j < k \<and> k < length fs \<longrightarrow> \<not> voice_at s fs k"
      by blast
    have nv: "\<not> voice_at s (fs @ [f]) (length fs)" using False by (simp add: voice_at_last)
    have "\<forall>k. j < k \<and> k < length (fs @ [f]) \<longrightarrow> \<not> voice_at s (fs @ [f]) k"
    proof (intro allI impI)
      fix k assume k: "j < k \<and> k < length (fs @ [f])"
      show "\<not> voice_at s (fs @ [f]) k"
      proof (cases "k = length fs")
        case True
        then show ?thesis using nv by simp
      next
        case False
        then have "k < length fs" using k by simp
        then show ?thesis using j(4) k by (simp add: voice_at_snoc)
      qed
    qed
    moreover have "voice_at s (fs @ [f]) j" using j by (simp add: voice_at_snoc)
    moreover have "lastSpeechTime (fst (run s (fs @ [f]))) = now ((fs @ [f]) ! j)"
      using j detect_no_voice(1)[OF an False] by (simp add: run_snoc nth_append)
    ultimately show ?thesis using j(1) by (intro exI[of _ j]) simp
  qed
qed

text \<open>
  C5. In a session that starts while the detector is not speaking, every
  \<open>speech_end\<close> event carries the duration
  \<open>(confirmation time - lastSpeechTime) + minSilenceDuration\<close>, where the confirmation
  time is the time of the frame that emits the event and \<open>lastSpeechTime\<close> is the time
  of the last frame with voice polled before it: every frame after that one, up to the
  confirming frame, is without voice. An event of any other type carries no duration.
\<close>

theorem speech_end_duration:
  assumes "\<not> isSpeaking s" and "i < length fs" and "e \<in> set (emitted_at s fs i)"
  shows "(ev_type e = SpeechEnd \<longrightarrow>
            timestamp e = now (fs ! i)
            \<and> (\<exists>j<i. voice_at s fs j
                  \<and> (\<forall>k. j < k \<and> k \<le> i \<longrightarrow> \<not> voice_at s fs k)
                  \<and> duration e = Some (real_of_int (timestamp e - now (fs ! j))
                                        + minSilenceDuration (config s))))
       \<and> (ev_type e \<noteq> SpeechEnd \<longrightarrow> duration e = None)"
proof (intro conjI impI)
  assume "ev_type e \<noteq> SpeechEnd"
  then show "duration e = None"
    using assms(3) detect_emits_other unfolding emitted_at_def by blast
next
  assume "ev_type e = SpeechEnd"
  then show "timestamp e = now (fs ! i)"
    using assms(3) detect_emits_end unfolding emitted_at_def by blast
next
  assume en: "ev_type e = SpeechEnd"
  let ?b = "before s fs i"
  from detect_emits_end[OF assms(3)[unfolded emitted_at_def] en]
  have nv: "\<not> voice_at s fs i" and sp: "isSpeaking ?b" and ts: "timestamp e = now (fs ! i)"
    and d: "duration e = Some (real_of_int (now (fs ! i) - lastSpeechTime ?b)
                                + minSilenceDuration (config ?b))"
    by (simp_all add: voice_at_def)
  have len: "length (take i fs) = i" using assms(2) by simp
  have "\<exists>j<length (take i fs). voice_at s (take i fs) j
          \<and> lastSpeechTime ?b = now (take i fs ! j)
          \<and> (\<forall>k. j < k \<and> k < length (take i fs) \<longrightarrow> \<not> voice_at s (take i fs) k)"
    using last_voice_invariant[OF assms(1), of "take i fs"] sp unfolding before_def .
  then obtain j where j: "j < i" "voice_at s (take i fs) j"
    "lastSpeechTime ?b = now (take i fs ! j)"
    "\<forall>k. j < k \<and> k < i \<longrightarrow> \<not> voice_at s (take i fs) k"
    unfolding len by blast
  have vj: "voice_at s fs j" using j(1,2) assms(2) by (simp add: voice_at_take)
  have quiet_run: "\<forall>k. j < k \<and> k \<le> i \<longrightarrow> \<not> voice_at s fs k"
  proof (intro allI impI)
    fix k assume k: "j < k \<and> k \<le> i"
    show "\<not> voice_at s fs k"
    proof (cases "k = i")
      case True
      then show ?thesis using nv by simp
    next
      case False
      then have "k < i" using k by simp
      then show ?thesis using j(4) k assms(2) by (simp add: voice_at_take)
    qed
  qed
  have "duration e = Some (real_of_int (timestamp e - now (fs ! j))
                            + minSilenceDuration (config s))"
    using d ts j(1,3) by (simp add: before_def run_keeps)
  then show "\<exists>j<i. voice_at s fs j
                  \<and> (\<forall>k. j < k \<and> k \<le> i \<longrightarrow> \<not> voice_at s fs k)
                  \<and> duration e = Some (real_of_int (timestamp e - now (fs ! j))
                                        + minSilenceDuration (config s))"
    using j(1) vj quiet_run by blast
qed

lemma one_utterance_session:
  "\<exists>e. emitted_at listening one_utterance 4 = [e] \<and> ev_type e = SpeechEnd
       \<and> timestamp e = 2200"
  "voice_at listening one_utterance 2" "\<not> voice_at listening one_utterance 3"
  "\<not> voice_at listening one_utterance 4" "now (one_utterance ! 2) = 1350"
  "minSilenceDuration (config listening) = 800"
  unfolding one_utterance_def by (simp_all add: session_simps)

theorem speech_end_duration_witness:
  "\<not> isSpeaking listening \<and> 4 < length one_utterance
   \<and> (\<exists>e. emitted_at listening one_utterance 4 = [e] \<and> ev_type e = SpeechEnd
          \<and> timestamp e = 2200 \<and> duration e = Some 1650)
   \<and> voice_at listening one_utterance 2
   \<and> \<not> voice_at listening one_utterance 3 \<and> \<not> voice_at listening one_utterance 4"
proof -
  have h1: "\<not> isSpeaking listening" by (simp add: listening_record)
  have h2: "4 < length one_utterance" by (simp add: one_utterance_def)
  from one_utterance_session(1) obtain e where
    e: "emitted_at listening one_utterance 4 = [e]" "ev_type e = SpeechEnd"
       "timestamp e = 2200"
    by blast
  then have h3: "e \<in> set (emitted_at listening one_utterance 4)" by simp
  from speech_end_duration[OF h1 h2 h3] e(2)
  obtain j where j: "j < 4" "voice_at listening one_utterance j"
    "\<forall>k. j < k \<and> k \<le> 4 \<longrightarrow> \<not> voice_at listening one_utterance k"
    "duration e = Some (real_of_int (timestamp e - now (one_utterance ! j))
                         + minSilenceDuration (config listening))"
    by blast
  have "\<not> j < 2" using j(3) one_utterance_session(2) by auto
  moreover have "j \<noteq> 3" using j(2) one_utterance_session(3) by auto
  ultimately have "j = 2" using j(1) by arith
  then have "duration e = Some 1650"
    using j(4) e(3) one_utterance_session(5,6) by simp
  then show ?thesis
    using h1 h2 e one_utterance_session(2,3,4) by simp
qed


section \<open>The start debounce\<close>

text \<open>
  C2. With \<open>minSpeechDuration = 300\<close>, a pulse of voice from 1000 to 1250 emits nothing
  and is followed by silence. The branch that discards a failed start
  (\<^verbatim>\<open>// Reset speech start if not enough duration\<close>) only does so while
  \<^verbatim>\<open>now - speechStartTime < minSpeechDuration\<close>; the first silent frame is polled at
  1300, which is 300 ms after the pulse began, so \<open>speechStartTime\<close> is not reset and
  stays 1000 through the silence. The first frame of a second pulse, at 9000 and 100 ms
  after a silent frame, then emits \<open>speech_start\<close> at once, without any voice before
  it in the last 7.7 s.
\<close>

theorem late_silence_keeps_accumulation:
  "minSpeechDuration (config listening) = 300
   \<and> map now late_silence = [1000, 1250, 1300, 8900, 9000]
   \<and> voice_at listening late_silence 0 \<and> voice_at listening late_silence 1
   \<and> \<not> voice_at listening late_silence 2 \<and> \<not> voice_at listening late_silence 3
   \<and> emitted_at listening late_silence 1 = []
   \<and> speechStartTime (before listening late_silence 3) = 1000
   \<and> speechStartTime (before listening late_silence 4) = 1000
   \<and> map ev_type (emitted_at listening late_silence 4) = [SpeechStart]
   \<and> map (\<lambda>e. (ev_type e, timestamp e)) (snd (run listening late_silence))
       = [(SpeechStart, 9000)]"
  unfolding late_silence_def by (simp add: session_simps)

section \<open>Order of the events\<close>

lemma emitted_at_snoc: "i < length fs \<Longrightarrow> emitted_at s (fs @ [f]) i = emitted_at s fs i"
  by (simp add: emitted_at_def before_snoc nth_append)

lemma emitted_at_last: "emitted_at s (fs @ [f]) (length fs) = snd (detect (fst (run s fs)) f)"
  by (simp add: emitted_at_def before_def)

lemma run_events_by_frame:
  "snd (run s fs) = concat (map (emitted_at s fs) [0 ..< length fs])"
proof (induction fs rule: rev_induct)
  case Nil
  then show ?case by simp
next
  case (snoc f fs)
  have same: "map (emitted_at s (fs @ [f])) [0 ..< length fs] = map (emitted_at s fs) [0 ..< length fs]"
    by (rule map_cong) (simp_all add: emitted_at_snoc)
  have "snd (run s (fs @ [f])) = snd (run s fs) @ emitted_at s (fs @ [f]) (length fs)"
    by (simp add: run_snoc emitted_at_last)
  also have "\<dots> = concat (map (emitted_at s (fs @ [f])) [0 ..< length fs])
                   @ emitted_at s (fs @ [f]) (length fs)"
    unfolding same snoc.IH ..
  finally show ?case by simp
qed

lemma run_timestamps: "subseq (map timestamp (snd (run s fs))) (map now fs)"
proof (induction fs arbitrary: s)
  case Nil
  then show ?case by simp
next
  case (Cons f fs)
  from detect_events[of s f] show ?case
  proof
    assume "snd (detect s f) = []"
    then show ?thesis using Cons[of "fst (detect s f)"] by (auto simp: split_beta)
  next
    assume "\<exists>ev. snd (detect s f) = [ev] \<and> timestamp ev = now f \<and> onActivityCallback s"
    then show ?thesis using Cons[of "fst (detect s f)"] by (auto simp: split_beta)
  qed
qed

lemma run_silent: "\<not> onActivityCallback s \<Longrightarrow> snd (run s fs) = []"
proof (induction fs arbitrary: s)
  case Nil
  then show ?case by simp
next
  case (Cons f fs)
  have "snd (detect s f) = []" using detect_events[of s f] Cons.prems by auto
  then show ?case using Cons by (simp add: split_beta detect_keeps)
qed

lemma run_separated: "starts_separated (isSpeaking s) (map ev_type (snd (run s fs)))"
proof (cases "onActivityCallback s")
  case False
  then show ?thesis by (simp add: run_silent)
next
  case True
  then show ?thesis
  proof (induction fs arbitrary: s)
    case Nil
    then show ?case by simp
  next
    case (Cons f fs)
    have cb: "onActivityCallback (fst (detect s f))" using Cons.prems by (simp add: detect_keeps)
    from detect_start[OF Cons.prems, of f] Cons.IH[OF cb] show ?case
      by (auto simp: split_beta)
  qed
qed

lemma separated_pending:
  "starts_separated True ts \<Longrightarrow> j < length ts \<Longrightarrow> ts ! j = SpeechStart \<Longrightarrow>
     \<exists>k<j. ts ! k = SpeechEnd"
proof (induction ts arbitrary: j)
  case Nil
  then show ?case by simp
next
  case (Cons a ts)
  show ?case
  proof (cases a)
    case SpeechStart
    then show ?thesis using Cons.prems by simp
  next
    case SpeechEnd
    then show ?thesis using Cons.prems by (cases j) auto
  next
    case SpeechActive
    with Cons.prems obtain j' where j: "j = Suc j'" by (cases j) auto
    with Cons SpeechActive obtain k where "k < j'" "ts ! k = SpeechEnd" by auto
    then show ?thesis using j by (intro exI[of _ "Suc k"]) simp
  next
    case Noise
    with Cons.prems obtain j' where j: "j = Suc j'" by (cases j) auto
    with Cons Noise obtain k where "k < j'" "ts ! k = SpeechEnd" by auto
    then show ?thesis using j by (intro exI[of _ "Suc k"]) simp
  qed
qed

lemma separated_between:
  "starts_separated b ts \<Longrightarrow> i < j \<Longrightarrow> j < length ts \<Longrightarrow> ts ! i = SpeechStart \<Longrightarrow>
   ts ! j = SpeechStart \<Longrightarrow> \<exists>k. i < k \<and> k < j \<and> ts ! k = SpeechEnd"
proof (induction ts arbitrary: b i j)
  case Nil
  then show ?case by simp
next
  case (Cons a ts)
  obtain j' where j: "j = Suc j'" using Cons.prems(2) by (cases j) auto
  show ?case
  proof (cases i)
    case 0
    then have a: "a = SpeechStart" using Cons.prems by simp
    then have "starts_separated True ts" using Cons.prems(1) by simp
    from separated_pending[OF this, of j'] Cons.prems j
    obtain k where "k < j'" "ts ! k = SpeechEnd" by auto
    then show ?thesis using 0 j by (intro exI[of _ "Suc k"]) simp
  next
    case (Suc i')
    have "\<exists>b'. starts_separated b' ts" using Cons.prems(1) by (cases a) auto
    then obtain b' where "starts_separated b' ts" ..
    from Cons.IH[OF this, of i' j'] Cons.prems Suc j
    obtain k where "i' < k" "k < j'" "ts ! k = SpeechEnd" by auto
    then show ?thesis using Suc j by (intro exI[of _ "Suc k"]) simp
  qed
qed

text \<open>
  C6. The events of a session are the events of its frames, put one after the other
  in the order in which the frames are polled; a frame emits at most one event, which
  carries the frame's time, so the times of the events are a subsequence of the times
  of the frames. Between two \<open>speech_start\<close> events of a session there is always a
  \<open>speech_end\<close> event.
\<close>

theorem events_in_frame_order_and_starts_separated:
  "snd (run s fs) = concat (map (emitted_at s fs) [0 ..< length fs])
   \<and> (\<forall>i<length fs. length (emitted_at s fs i) \<le> 1
         \<and> (\<forall>e\<in>set (emitted_at s fs i). timestamp e = now (fs ! i)))
   \<and> subseq (map timestamp (snd (run s fs))) (map now fs)
   \<and> (\<forall>i j. i < j \<and> j < length (snd (run s fs))
          \<and> ev_type (snd (run s fs) ! i) = SpeechStart
          \<and> ev_type (snd (run s fs) ! j) = SpeechStart
        \<longrightarrow> (\<exists>k. i < k \<and> k < j \<and> ev_type (snd (run s fs) ! k) = SpeechEnd))"
proof (intro conjI allI impI)
  show "snd (run s fs) = concat (map (emitted_at s fs) [0 ..< length fs])"
    by (rule run_events_by_frame)
next
  fix i assume "i < length fs"
  show "length (emitted_at s fs i) \<le> 1"
    using detect_events[of "before s fs i" "fs ! i"] by (auto simp: emitted_at_def)
next
  fix i assume "i < length fs"
  show "\<forall>e\<in>set (emitted_at s fs i). timestamp e = now (fs ! i)"
    using detect_events[of "before s fs i" "fs ! i"] by (auto simp: emitted_at_def)
next
  show "subseq (map timestamp (snd (run s fs))) (map now fs)"
    by (rule run_timestamps)
next
  fix i j
  assume a: "i < j \<and> j < length (snd (run s fs))
          \<and> ev_type (snd (run s fs) ! i) = SpeechStart
          \<and> ev_type (snd (run s fs) ! j) = SpeechStart"
  let ?ts = "map ev_type (snd (run s fs))"
  have "\<exists>k. i < k \<and> k < j \<and> ?ts ! k = SpeechEnd"
    using separated_between[OF run_separated, of i j s fs] a by simp
  then show "\<exists>k. i < k \<and> k < j \<and> ev_type (snd (run s fs) ! k) = SpeechEnd"
    using a by auto
qed

lemma two_utterances_session:
  "map ev_type (snd (run listening two_utterances)) = [SpeechStart, SpeechEnd, SpeechStart]"
  "map timestamp (snd (run listening two_utterances)) = [1300, 2200, 3300]"
  "map now two_utterances = [1000, 1300, 1400, 2200, 3000, 3300]"
  unfolding two_utterances_def by (simp_all add: session_simps)

theorem events_in_frame_order_and_starts_separated_witness:
  "map ev_type (snd (run listening two_utterances)) = [SpeechStart, SpeechEnd, SpeechStart]
   \<and> subseq [1300, 2200, 3300] (map now two_utterances)
   \<and> (0::nat) < 2 \<and> 2 < length (snd (run listening two_utterances))
   \<and> ev_type (snd (run listening two_utterances) ! 0) = SpeechStart
   \<and> ev_type (snd (run listening two_utterances) ! 2) = SpeechStart
   \<and> (\<exists>k. 0 < k \<and> k < 2 \<and> ev_type (snd (run listening two_utterances) ! k) = SpeechEnd)"
proof -
  note t = events_in_frame_order_and_starts_separated[of listening two_utterances]
  have "length (map ev_type (snd (run listening two_utterances))) = 3"
    unfolding two_utterances_session(1) by simp
  then have len: "length (snd (run listening two_utterances)) = 3" by simp
  have "map ev_type (snd (run listening two_utterances)) ! 0 = SpeechStart"
    and "map ev_type (snd (run listening two_utterances)) ! 2 = SpeechStart"
    unfolding two_utterances_session(1) by simp_all
  then have e0: "ev_type (snd (run listening two_utterances) ! 0) = SpeechStart"
    and e2: "ev_type (snd (run listening two_utterances) ! 2) = SpeechStart"
    using len by simp_all
  from t have "subseq (map timestamp (snd (run listening two_utterances))) (map now two_utterances)"
    by blast
  then have sub: "subseq [1300, 2200, 3300] (map now two_utterances)"
    by (simp only: two_utterances_session(2))
  from t have "(0::nat) < 2 \<and> 2 < length (snd (run listening two_utterances))
          \<and> ev_type (snd (run listening two_utterances) ! 0) = SpeechStart
          \<and> ev_type (snd (run listening two_utterances) ! 2) = SpeechStart
        \<longrightarrow> (\<exists>k. 0 < k \<and> k < 2 \<and> ev_type (snd (run listening two_utterances) ! k) = SpeechEnd)"
    by blast
  then have "\<exists>k. 0 < k \<and> k < 2 \<and> ev_type (snd (run listening two_utterances) ! k) = SpeechEnd"
    using e0 e2 len by simp
  then show ?thesis using two_utterances_session(1) sub len e0 e2 by simp
qed


section \<open>The end debounce\<close>

text \<open>
  C1. Speech is confirmed at 1300 (\<open>minSilenceDuration = 800\<close>). A single silent frame
  at 1400 starts the silence timer; voice is back at 1500 and is still there at 5000,
  3.5 s later. The branch for ongoing speech only emits \<open>speech_active\<close>: it does not
  reset \<open>silenceStartTime\<close>, which is still 1400 when the next silent frame arrives
  at 5016. That one frame, 16 ms after the last frame with voice, is more than 800 ms
  after 1400 and emits \<open>speech_end\<close>. The start debounce, by contrast, has a branch
  that resets its timer (lines 202 to 208).
\<close>

theorem interrupted_silence_ends_speech:
  "minSilenceDuration (config listening) = 800
   \<and> map now interrupted_silence = [1000, 1300, 1400, 1500, 5000, 5016]
   \<and> map (\<lambda>e. (ev_type e, timestamp e, duration e)) (snd (run listening interrupted_silence))
       = [(SpeechStart, 1300, None), (SpeechActive, 1500, None), (SpeechActive, 5000, None),
          (SpeechEnd, 5016, Some 816)]
   \<and> \<not> voice_at listening interrupted_silence 2
   \<and> voice_at listening interrupted_silence 3 \<and> voice_at listening interrupted_silence 4
   \<and> \<not> voice_at listening interrupted_silence 5
   \<and> silenceStartTime (before listening interrupted_silence 3) = 1400
   \<and> silenceStartTime (before listening interrupted_silence 4) = 1400
   \<and> silenceStartTime (before listening interrupted_silence 5) = 1400
   \<and> map ev_type (emitted_at listening interrupted_silence 5) = [SpeechEnd]"
  unfolding interrupted_silence_def by (simp add: session_simps)

section \<open>The silence timer runs only while speaking\<close>

lemma exec_snoc: "fst (exec s (cs @ [c])) = fst (exec_call (fst (exec s cs)) c)"
  by (induction cs arbitrary: s) (simp_all add: split_beta)

lemma timer_detect:
  assumes "silenceStartTime s \<noteq> 0 \<longrightarrow> isSpeaking s"
  shows "silenceStartTime (fst (detect s f)) \<noteq> 0 \<longrightarrow> isSpeaking (fst (detect s f))"
  using assms by (auto simp: detect_def Let_def split_beta speech_machine_def)

lemma timer_init:
  assumes "silenceStartTime s \<noteq> 0 \<longrightarrow> isSpeaking s"
  shows "silenceStartTime (fst (fst (init s cb env f))) \<noteq> 0
           \<longrightarrow> isSpeaking (fst (fst (init s cb env f)))"
proof -
  let ?s = "s\<lparr>onActivityCallback := cb, audioContext := True, analyser := True,
               sourceNode := True\<rparr>"
  have "silenceStartTime ?s \<noteq> 0 \<longrightarrow> isSpeaking ?s" using assms by simp
  from timer_detect[OF this, of f] assms show ?thesis
    by (simp add: init_def Let_def)
qed

lemma timer_call:
  assumes "silenceStartTime s \<noteq> 0 \<longrightarrow> isSpeaking s"
  shows "silenceStartTime (fst (exec_call s c)) \<noteq> 0 \<longrightarrow> isSpeaking (fst (exec_call s c))"
proof (cases c)
  case (Init cb env f)
  then show ?thesis using timer_init[OF assms] by simp
next
  case (Poll f)
  then show ?thesis using timer_detect[OF assms] by simp
next
  case (UpdateConfig p)
  then show ?thesis using assms by (simp add: updateConfig_def)
next
  case Stop
  then show ?thesis by (simp add: stop_fields)
qed

lemma timer_exec:
  assumes "silenceStartTime s \<noteq> 0 \<longrightarrow> isSpeaking s"
  shows "silenceStartTime (fst (exec s cs)) \<noteq> 0 \<longrightarrow> isSpeaking (fst (exec s cs))"
proof (induction cs rule: rev_induct)
  case Nil
  then show ?case using assms by simp
next
  case (snoc c cs)
  then show ?case using timer_call[of "fst (exec s cs)" c] by (simp add: exec_snoc)
qed

text \<open>
  C10. In every state that a detector reaches from its construction through calls of
  \<^verbatim>\<open>init\<close>, polled frames, \<^verbatim>\<open>updateConfig\<close> and \<^verbatim>\<open>stop\<close>, in any order, a
  non-zero \<open>silenceStartTime\<close> implies \<open>isSpeaking\<close>; and each of these calls, made in
  any state where the implication holds, leads to a state where it holds.
\<close>

theorem silence_timer_only_while_speaking:
  "(silenceStartTime (fst (exec (construct p) cs)) \<noteq> 0
      \<longrightarrow> isSpeaking (fst (exec (construct p) cs)))
   \<and> ((silenceStartTime s \<noteq> 0 \<longrightarrow> isSpeaking s)
      \<longrightarrow> (silenceStartTime (fst (exec_call s c)) \<noteq> 0 \<longrightarrow> isSpeaking (fst (exec_call s c))))"
proof -
  have "silenceStartTime (construct p) \<noteq> 0 \<longrightarrow> isSpeaking (construct p)"
    by (simp add: construct_def)
  from timer_exec[OF this] timer_call show ?thesis by blast
qed

lemma pending_silence_session:
  "silenceStartTime (fst (exec (construct session_overrides)
      [Init True Available (loud 1000), Poll (loud 1300), Poll (quiet 1400)])) = 1400"
  by (simp add: init_listening split_beta session_simps)

theorem silence_timer_only_while_speaking_witness:
  "silenceStartTime (fst (exec (construct session_overrides)
      [Init True Available (loud 1000), Poll (loud 1300), Poll (quiet 1400)])) = 1400
   \<and> isSpeaking (fst (exec (construct session_overrides)
      [Init True Available (loud 1000), Poll (loud 1300), Poll (quiet 1400)]))"
  using silence_timer_only_while_speaking[of session_overrides
      "[Init True Available (loud 1000), Poll (loud 1300), Poll (quiet 1400)]"]
    pending_silence_session
  by simp

end
